theory Spec2Isabelle
  imports Main "HOL-Library.Word"
begin

unbundle bit_operations_syntax

section \<open>The Zigbee security header: zigbee.security.h\<close>

text \<open>
  The header is a set of object-like and function-like macros, two enumerations and a
  few prototypes. A constant written with the suffix \<open>U\<close> is an \<open>unsigned int\<close>,
  32 bits wide on the target (STM32WBA, Cortex-M33), hence a \<open>32 word\<close>; a constant cast
  to \<open>uint8_t\<close> is an \<open>8 word\<close>. Each definition below is one \<open>#define\<close> of the header,
  under its own name and with the right-hand side of the header.
\<close>

type_synonym u8 = "8 word"
type_synonym u16 = "16 word"
type_synonym u32 = "32 word"
type_synonym u64 = "64 word"

subsection \<open>Security levels\<close>

definition ZB_SEC_LEVEL_NONE :: u32 where "ZB_SEC_LEVEL_NONE = 0x00"
definition ZB_SEC_LEVEL_MIC32 :: u32 where "ZB_SEC_LEVEL_MIC32 = 0x01"
definition ZB_SEC_LEVEL_MIC64 :: u32 where "ZB_SEC_LEVEL_MIC64 = 0x02"
definition ZB_SEC_LEVEL_MIC128 :: u32 where "ZB_SEC_LEVEL_MIC128 = 0x03"
definition ZB_SEC_LEVEL_ENC :: u32 where "ZB_SEC_LEVEL_ENC = 0x04"

text \<open>
  \<^verbatim>\<open>#define ZB_SEC_ENCRYPTED(level) ((level & ZB_SEC_LEVEL_ENC) != 0U)\<close>

  The level is the \<open>uint8_t\<close> security level of a frame. In \<open>level & 0x04U\<close> it is
  promoted and converted to \<open>unsigned int\<close> (\<open>ucast\<close>), so the comparison is one of
  32-bit values.
\<close>

definition ZB_SEC_ENCRYPTED :: "u8 \<Rightarrow> bool" where
  "ZB_SEC_ENCRYPTED level \<longleftrightarrow> (ucast level AND ZB_SEC_LEVEL_ENC) \<noteq> 0"

text \<open>
  \<^verbatim>\<open>#define ZB_SEC_MIC_LENGTH(level) ((2U << ((level) & 0x3U)) & ~0x3U)\<close>

  The shift count is at most 3, so the shift of the 32-bit value \<open>2U\<close> is defined and
  loses no bit; \<open>~0x3U\<close> is the 32-bit complement \<open>0xFFFFFFFC\<close>.
\<close>

definition ZB_SEC_MIC_LENGTH :: "u8 \<Rightarrow> u32" where
  "ZB_SEC_MIC_LENGTH level =
     push_bit (unat (ucast level AND (0x3 :: u32))) (2 :: u32) AND NOT 0x3"

definition ZB_SEC_MAX_MIC_LENGTH :: u32 where "ZB_SEC_MAX_MIC_LENGTH = 16"
definition ZB_SEC_NONCE_LENGTH :: u32 where "ZB_SEC_NONCE_LENGTH = 13"
definition ZB_SEC_BLOCKSIZE :: u32 where "ZB_SEC_BLOCKSIZE = 16"
definition ZB_SEC_KEYSIZE :: u32 where "ZB_SEC_KEYSIZE = ZB_SEC_BLOCKSIZE"
definition ZB_SEC_INSTALL_CODE_MAX_LENGTH :: u32 where "ZB_SEC_INSTALL_CODE_MAX_LENGTH = 18"

subsection \<open>The security control octet\<close>

definition ZB_SEC_SECCTRL_MASK_LEVEL :: u8 where "ZB_SEC_SECCTRL_MASK_LEVEL = 0x07"
definition ZB_SEC_SECCTRL_MASK_KEYID :: u8 where "ZB_SEC_SECCTRL_MASK_KEYID = 0x18"
definition ZB_SEC_SECCTRL_MASK_EXTNONCE :: u8 where "ZB_SEC_SECCTRL_MASK_EXTNONCE = 0x20"
definition ZB_SEC_SECCTRL_MASK_RESERVED :: u8 where "ZB_SEC_SECCTRL_MASK_RESERVED = 0xC0"

definition ZB_SEC_SECCTRL_OFFSET_LEVEL :: u32 where "ZB_SEC_SECCTRL_OFFSET_LEVEL = 0"
definition ZB_SEC_SECCTRL_OFFSET_KEYID :: u32 where "ZB_SEC_SECCTRL_OFFSET_KEYID = 3"
definition ZB_SEC_SECCTRL_OFFSET_EXTNONCE :: u32 where "ZB_SEC_SECCTRL_OFFSET_EXTNONCE = 5"

text \<open>
  \<^verbatim>\<open>enum ZbSecHdrKeyIdT\<close>: the enumerators and the \<open>int\<close> value the header gives each.
\<close>

datatype ZbSecHdrKeyIdT =
    ZB_SEC_KEYID_LINK
  | ZB_SEC_KEYID_NETWORK
  | ZB_SEC_KEYID_TRANSPORT
  | ZB_SEC_KEYID_KEYLOAD
  | ZB_SEC_KEYID_BOTH_LINK_NETWORK
  | ZB_SEC_KEYID_DEFAULT

fun ZbSecHdrKeyIdT_value :: "ZbSecHdrKeyIdT \<Rightarrow> int" where
  "ZbSecHdrKeyIdT_value ZB_SEC_KEYID_LINK = 0x00"
| "ZbSecHdrKeyIdT_value ZB_SEC_KEYID_NETWORK = 0x01"
| "ZbSecHdrKeyIdT_value ZB_SEC_KEYID_TRANSPORT = 0x02"
| "ZbSecHdrKeyIdT_value ZB_SEC_KEYID_KEYLOAD = 0x03"
| "ZbSecHdrKeyIdT_value ZB_SEC_KEYID_BOTH_LINK_NETWORK = 0xfe"
| "ZbSecHdrKeyIdT_value ZB_SEC_KEYID_DEFAULT = 0xff"

text \<open>
  The key identifier of a security control octet \<open>b\<close>, read with the mask and the offset
  of the header: \<open>(b & ZB_SEC_SECCTRL_MASK_KEYID) >> ZB_SEC_SECCTRL_OFFSET_KEYID\<close>. Both
  operands of \<open>&\<close> are \<open>uint8_t\<close>, promoted to \<open>int\<close>; the value is the unsigned reading
  of the 8-bit result.
\<close>

definition secctrl_keyid :: "u8 \<Rightarrow> int" where
  "secctrl_keyid b =
     uint (drop_bit (unat ZB_SEC_SECCTRL_OFFSET_KEYID) (b AND ZB_SEC_SECCTRL_MASK_KEYID))"

subsection \<open>Frame counters\<close>

definition ZB_SEC_MAX_FRAME_COUNTER :: u32 where "ZB_SEC_MAX_FRAME_COUNTER = 0xffffffff"
definition ZB_FRAME_COUNTER_RESET_MAX :: u32 where "ZB_FRAME_COUNTER_RESET_MAX = 256"

subsection \<open>CBKE certificate formats\<close>

text \<open>Field sizes for the elliptic curve SECT-163K1.\<close>

definition CBKE_PRIVATE_KEY_SIZE :: u32 where "CBKE_PRIVATE_KEY_SIZE = 21"
definition CBKE_COMPRESSED_PUBLIC_KEY_SIZE :: u32 where
  "CBKE_COMPRESSED_PUBLIC_KEY_SIZE = CBKE_PRIVATE_KEY_SIZE + 1"
definition CBKE_SHARED_SECRET_SIZE :: u32 where
  "CBKE_SHARED_SECRET_SIZE = CBKE_PRIVATE_KEY_SIZE"

text \<open>Field sizes for the elliptic curve SECT-283K1.\<close>

definition CBKE2_PRIVATE_KEY_SIZE :: u32 where "CBKE2_PRIVATE_KEY_SIZE = 36"
definition CBKE2_COMPRESSED_PUBLIC_KEY_SIZE :: u32 where
  "CBKE2_COMPRESSED_PUBLIC_KEY_SIZE = CBKE2_PRIVATE_KEY_SIZE + 1"
definition CBKE2_SHARED_SECRET_SIZE :: u32 where
  "CBKE2_SHARED_SECRET_SIZE = CBKE2_PRIVATE_KEY_SIZE"

text \<open>Size and layout of the CBKE certificate.\<close>

definition CBKE_CERT_SUBJECT_OFFSET :: u32 where
  "CBKE_CERT_SUBJECT_OFFSET = CBKE_COMPRESSED_PUBLIC_KEY_SIZE"
definition CBKE_CERT_SUBJECT_SIZE :: u32 where "CBKE_CERT_SUBJECT_SIZE = 8"
definition CBKE_CERT_ISSUER_OFFSET :: u32 where
  "CBKE_CERT_ISSUER_OFFSET = CBKE_CERT_SUBJECT_OFFSET + CBKE_CERT_SUBJECT_SIZE"
definition CBKE_CERT_ISSUER_SIZE :: u32 where "CBKE_CERT_ISSUER_SIZE = 8"
definition CBKE_CERT_DATA_OFFSET :: u32 where
  "CBKE_CERT_DATA_OFFSET = CBKE_CERT_ISSUER_OFFSET + CBKE_CERT_ISSUER_SIZE"
definition CBKE_CERT_DATA_SIZE :: u32 where "CBKE_CERT_DATA_SIZE = 10"
definition CBKE_CERTIFICATE_SIZE :: u32 where
  "CBKE_CERTIFICATE_SIZE = CBKE_CERT_DATA_OFFSET + CBKE_CERT_DATA_SIZE"

text \<open>Size and layout of the CBKE2 certificate.\<close>

definition CBKE2_CERT_TYPE_OFFSET :: u32 where "CBKE2_CERT_TYPE_OFFSET = 0"
definition CBKE2_CERT_TYPE_SIZE :: u32 where "CBKE2_CERT_TYPE_SIZE = 1"
definition CBKE2_CERT_SERIAL_OFFSET :: u32 where
  "CBKE2_CERT_SERIAL_OFFSET = CBKE2_CERT_TYPE_SIZE"
definition CBKE2_CERT_SERIAL_SIZE :: u32 where "CBKE2_CERT_SERIAL_SIZE = 8"
definition CBKE2_CERT_CURVE_OFFSET :: u32 where
  "CBKE2_CERT_CURVE_OFFSET = CBKE2_CERT_SERIAL_OFFSET + CBKE2_CERT_SERIAL_SIZE"
definition CBKE2_CERT_CURVE_SIZE :: u32 where "CBKE2_CERT_CURVE_SIZE = 1"
definition CBKE2_CERT_HASH_OFFSET :: u32 where
  "CBKE2_CERT_HASH_OFFSET = CBKE2_CERT_CURVE_OFFSET + CBKE2_CERT_CURVE_SIZE"
definition CBKE2_CERT_HASH_SIZE :: u32 where "CBKE2_CERT_HASH_SIZE = 1"
definition CBKE2_CERT_ISSUER_OFFSET :: u32 where
  "CBKE2_CERT_ISSUER_OFFSET = CBKE2_CERT_HASH_OFFSET + CBKE2_CERT_HASH_SIZE"
definition CBKE2_CERT_ISSUER_SIZE :: u32 where "CBKE2_CERT_ISSUER_SIZE = 8"
definition CBKE2_CERT_VALID_FROM_OFFSET :: u32 where
  "CBKE2_CERT_VALID_FROM_OFFSET = CBKE2_CERT_ISSUER_OFFSET + CBKE2_CERT_ISSUER_SIZE"
definition CBKE2_CERT_VALID_FROM_SIZE :: u32 where "CBKE2_CERT_VALID_FROM_SIZE = 5"
definition CBKE2_CERT_VALID_TO_OFFSET :: u32 where
  "CBKE2_CERT_VALID_TO_OFFSET = CBKE2_CERT_VALID_FROM_OFFSET + CBKE2_CERT_VALID_FROM_SIZE"
definition CBKE2_CERT_VALID_TO_SIZE :: u32 where "CBKE2_CERT_VALID_TO_SIZE = 4"
definition CBKE2_CERT_SUBJECT_OFFSET :: u32 where
  "CBKE2_CERT_SUBJECT_OFFSET = CBKE2_CERT_VALID_TO_OFFSET + CBKE2_CERT_VALID_TO_SIZE"
definition CBKE2_CERT_SUBJECT_SIZE :: u32 where "CBKE2_CERT_SUBJECT_SIZE = 8"
definition CBKE2_CERT_KEY_USAGE_OFFSET :: u32 where
  "CBKE2_CERT_KEY_USAGE_OFFSET = CBKE2_CERT_SUBJECT_OFFSET + CBKE2_CERT_SUBJECT_SIZE"
definition CBKE2_CERT_KEY_USAGE_SIZE :: u32 where "CBKE2_CERT_KEY_USAGE_SIZE = 1"
definition CBKE2_CERT_PUBLIC_KEY_OFFSET :: u32 where
  "CBKE2_CERT_PUBLIC_KEY_OFFSET = CBKE2_CERT_KEY_USAGE_OFFSET + CBKE2_CERT_KEY_USAGE_SIZE"
definition CBKE2_CERT_PUBLIC_KEY_SIZE :: u32 where "CBKE2_CERT_PUBLIC_KEY_SIZE = 37"
definition CBKE2_CERTIFICATE_SIZE :: u32 where
  "CBKE2_CERTIFICATE_SIZE = CBKE2_CERT_PUBLIC_KEY_OFFSET + CBKE2_CERT_PUBLIC_KEY_SIZE"

subsection \<open>ECDSA signature validation\<close>


definition ZB_SEC_CRYPTO_SUITE_V2_CERT_LEN :: u32 where "ZB_SEC_CRYPTO_SUITE_V2_CERT_LEN = 74"

section \<open>The security subsystem behind the header\<close>

text \<open>
  The header declares the interface of the security subsystem; the functions themselves
  (frame counter tracking, nonce construction, the CCM* transform, install codes and the
  ECDSA validator) are not part of the sources. Their models below follow the design
  document of the subsystem, and use the constants of the header above.
\<close>

type_synonym bytes = "u8 list"

text \<open>
  Modelled from the spec: the error taxonomy of section 7. The C functions of the header
  return an \<^verbatim>\<open>enum ZbStatusCodeT\<close>, which the header uses and does not define.
\<close>

datatype install_code_error = CrcMismatch | UnsupportedLength

datatype error =
    MalformedHeader
  | InvalidKeyLength
  | InvalidInstallCode install_code_error
  | Replay
  | CounterExhausted
  | AuthFailure
  | CertificateInvalid
  | CurveMismatch
  | MalformedInput
  | SignatureInvalid

subsection \<open>Frame counter tracker\<close>

text \<open>
  Modelled from the spec: the state of the frame counter tracker, which no source file
  declares. Per (peer, key) pair it holds the last accepted incoming counter
  (\<open>stored_counter\<close>) and the local outgoing counter (\<open>local_counter\<close>), both \<open>u32\<close>; per
  peer it records whether an authorised counter reset, triggered out of band, is in
  effect. A peer is named by its extended address.
\<close>

record tracker =
  stored_counter :: "u64 \<times> ZbSecHdrKeyIdT \<Rightarrow> u32"
  reset_authorized :: "u64 \<Rightarrow> bool"
  local_counter :: "u64 \<times> ZbSecHdrKeyIdT \<Rightarrow> u32"

text \<open>
  Modelled from the spec: \<open>accept_and_advance(peer, key_id, incoming_counter)\<close>, absent
  from the sources. It rejects with \<open>Replay\<close> if the incoming counter is not above the
  stored one, unless the peer is performing an authorised counter reset and the incoming
  counter is below \<open>ZB_FRAME_COUNTER_RESET_MAX\<close>; otherwise it accepts and stores the
  incoming counter. The result is paired with the tracker after the call.
\<close>

definition accept_and_advance ::
  "tracker \<Rightarrow> u64 \<Rightarrow> ZbSecHdrKeyIdT \<Rightarrow> u32 \<Rightarrow> (error + unit) \<times> tracker" where
  "accept_and_advance t peer key_id incoming_counter =
     (if incoming_counter \<le> stored_counter t (peer, key_id)
         \<and> \<not> (reset_authorized t peer \<and> incoming_counter < ZB_FRAME_COUNTER_RESET_MAX)
      then (Inl Replay, t)
      else (Inr (),
            t\<lparr>stored_counter := (stored_counter t)((peer, key_id) := incoming_counter)\<rparr>))"

text \<open>
  Modelled from the spec: \<open>next_outgoing(peer, key_id)\<close>, absent from the sources. It
  increments the local counter and returns the new value; when the increment would
  exceed \<open>ZB_SEC_MAX_FRAME_COUNTER\<close> it fails with \<open>CounterExhausted\<close> and changes
  nothing.
\<close>

definition next_outgoing ::
  "tracker \<Rightarrow> u64 \<Rightarrow> ZbSecHdrKeyIdT \<Rightarrow> (error + u32) \<times> tracker" where
  "next_outgoing t peer key_id =
     (if unat (local_counter t (peer, key_id)) + 1 > unat ZB_SEC_MAX_FRAME_COUNTER
      then (Inl CounterExhausted, t)
      else (Inr (local_counter t (peer, key_id) + 1),
            t\<lparr>local_counter :=
                (local_counter t)((peer, key_id) := local_counter t (peer, key_id) + 1)\<rparr>))"

text \<open>
  Modelled from the spec: the calls a protocol engine makes on a tracker, and a run of
  such calls; the results of the calls are dropped, the tracker is threaded through.
  \<open>tracker_init\<close> is the tracker of a fresh stack: all counters 0, no reset authorised.
\<close>

datatype tracker_call =
    Accept_and_advance u64 ZbSecHdrKeyIdT u32
  | Next_outgoing u64 ZbSecHdrKeyIdT

fun tracker_step :: "tracker \<Rightarrow> tracker_call \<Rightarrow> tracker" where
  "tracker_step t (Accept_and_advance peer key_id c) = snd (accept_and_advance t peer key_id c)"
| "tracker_step t (Next_outgoing peer key_id) = snd (next_outgoing t peer key_id)"

fun tracker_run :: "tracker \<Rightarrow> tracker_call list \<Rightarrow> tracker" where
  "tracker_run t [] = t"
| "tracker_run t (c # cs) = tracker_run (tracker_step t c) cs"

definition tracker_init :: tracker where
  "tracker_init =
     \<lparr>stored_counter = (\<lambda>_. 0), reset_authorized = (\<lambda>_. False), local_counter = (\<lambda>_. 0)\<rparr>"

subsection \<open>Nonce builder\<close>

text \<open>
  Modelled from the spec: the \<open>n\<close> low octets of a word, least significant first, which is
  the order of the fields of a Zigbee frame; and the word that a sequence of such octets
  denotes.
\<close>

fun le_bytes :: "nat \<Rightarrow> 'a::len word \<Rightarrow> bytes" where
  "le_bytes 0 w = []"
| "le_bytes (Suc n) w = ucast w # le_bytes n (drop_bit 8 w)"

fun of_le_bytes :: "bytes \<Rightarrow> 'a::len word" where
  "of_le_bytes [] = 0"
| "of_le_bytes (b # bs) = ucast b OR push_bit 8 (of_le_bytes bs)"

text \<open>
  Modelled from the spec: \<open>build_nonce(source_ext_addr, frame_counter, security_control)\<close>,
  absent from the sources (the header has only \<open>ZB_SEC_NONCE_LENGTH\<close>). The nonce is the
  8-byte source extended address, then the 4-byte frame counter, then the security
  control octet. The spec leaves the order of the octets inside a field to the Zigbee
  specification, which sends the least significant octet first.
\<close>

definition build_nonce :: "u64 \<Rightarrow> u32 \<Rightarrow> u8 \<Rightarrow> bytes" where
  "build_nonce source_ext_addr frame_counter security_control =
     le_bytes 8 source_ext_addr @ le_bytes 4 frame_counter @ [security_control]"

subsection \<open>Key store and install codes\<close>

text \<open>\<^verbatim>\<open>enum ZbSecKeyTypeT\<close> of the header.\<close>

datatype ZbSecKeyTypeT =
    ZB_SEC_KEYTYPE_STANDARD_NWK
  | ZB_SEC_KEYTYPE_APP_LINK
  | ZB_SEC_KEYTYPE_TC_LINK
  | ZB_SEC_KEYTYPE_GLOBAL_EPHEMERAL_AUTH
  | ZB_SEC_KEYTYPE_UNIQUE_EPHEMERAL_AUTH
  | ZB_SEC_KEYTYPE_BASIC_AUTH
  | ZB_SEC_KEYTYPE_ADMIN_AUTH

fun ZbSecKeyTypeT_value :: "ZbSecKeyTypeT \<Rightarrow> int" where
  "ZbSecKeyTypeT_value ZB_SEC_KEYTYPE_STANDARD_NWK = 0x01"
| "ZbSecKeyTypeT_value ZB_SEC_KEYTYPE_APP_LINK = 0x03"
| "ZbSecKeyTypeT_value ZB_SEC_KEYTYPE_TC_LINK = 0x04"
| "ZbSecKeyTypeT_value ZB_SEC_KEYTYPE_GLOBAL_EPHEMERAL_AUTH = 0xb0"
| "ZbSecKeyTypeT_value ZB_SEC_KEYTYPE_UNIQUE_EPHEMERAL_AUTH = 0xb1"
| "ZbSecKeyTypeT_value ZB_SEC_KEYTYPE_BASIC_AUTH = 0xb2"
| "ZbSecKeyTypeT_value ZB_SEC_KEYTYPE_ADMIN_AUTH = 0xb3"

text \<open>
  Modelled from the spec: the key entry and the key store, which the header leaves
  inside the opaque \<^verbatim>\<open>struct ZigBeeT\<close>. An entry owns the key material, a key type, an
  optional peer extended address and a frame counter; the store is indexed by key type
  and peer.
\<close>

record KeyEntry =
  key_material :: bytes
  key_type :: ZbSecKeyTypeT
  key_peer :: "u64 option"
  frame_counter :: u32

record ZigBeeT =
  key_store :: "ZbSecKeyTypeT \<times> u64 option \<rightharpoonup> KeyEntry"

text \<open>
  Modelled from the spec: \<open>add_or_replace(entry)\<close> of section 4.4, which installs a key
  entry in its slot of the store with the frame counter set to 0.
\<close>

definition add_or_replace :: "ZigBeeT \<Rightarrow> KeyEntry \<Rightarrow> ZigBeeT" where
  "add_or_replace zb entry =
     zb\<lparr>key_store := (key_store zb)((key_type entry, key_peer entry) \<mapsto> entry\<lparr>frame_counter := 0\<rparr>)\<rparr>"

text \<open>
  Modelled from the spec: the permitted lengths of an install code, trailing 2-byte CRC
  included (section 4.5). The header has only the largest, \<open>ZB_SEC_INSTALL_CODE_MAX_LENGTH\<close>.
\<close>

definition install_code_lengths :: "nat list" where
  "install_code_lengths = [6, 8, 12, 16, 18]"

text \<open>
  Modelled from the spec: the content of an install code, which is all but its last two
  bytes.
\<close>

definition install_code_content :: "bytes \<Rightarrow> bytes" where
  "install_code_content ic = take (length ic - 2) ic"

text \<open>
  Modelled from the spec: the CRC check of section 4.5, which compares the CRC-16 of the
  content with the last two bytes, least significant first. The CRC-16 function itself
  is given neither by the header nor by the spec: it is the parameter \<open>crc16\<close>.
\<close>

definition install_code_crc_ok :: "(bytes \<Rightarrow> u16) \<Rightarrow> bytes \<Rightarrow> bool" where
  "install_code_crc_ok crc16 ic \<longleftrightarrow>
     drop (length ic - 2) ic = le_bytes 2 (crc16 (install_code_content ic))"

text \<open>
  Modelled from the spec: \<^verbatim>\<open>ZbSecAddDeviceLinkKeyByInstallCode\<close>, declared in the header
  and implemented outside the sources. The install code \<open>ic\<close> is the \<open>len\<close> bytes the
  caller passes. The length is validated first, then the CRC; on success the
  Trust-Center link key of the peer is the AES-MMO hash of the content. The hash is
  \<^verbatim>\<open>ZbAesMmoHash\<close>, declared in the header only: it is the parameter \<open>AesMmoHash\<close>.
\<close>

definition ZbSecAddDeviceLinkKeyByInstallCode ::
  "(bytes \<Rightarrow> u16) \<Rightarrow> (bytes \<Rightarrow> bytes) \<Rightarrow> ZigBeeT \<Rightarrow> u64 \<Rightarrow> bytes \<Rightarrow> error + ZigBeeT" where
  "ZbSecAddDeviceLinkKeyByInstallCode crc16 AesMmoHash zb extAddr ic =
     (if length ic \<notin> set install_code_lengths then Inl (InvalidInstallCode UnsupportedLength)
      else if \<not> install_code_crc_ok crc16 ic then Inl (InvalidInstallCode CrcMismatch)
      else Inr (add_or_replace zb
             \<lparr>key_material = AesMmoHash (install_code_content ic),
              key_type = ZB_SEC_KEYTYPE_TC_LINK,
              key_peer = Some extAddr,
              frame_counter = 0\<rparr>))"

subsection \<open>ECDSA image validator\<close>





subsection \<open>CCM* transform\<close>

text \<open>
  Modelled from the spec: the 128-bit block that 16 bytes denote, first byte most
  significant; the sources have no block type. A block is a \<open>128 word\<close>, so that the block
  cipher cannot return anything but a block.
\<close>

definition block_of :: "bytes \<Rightarrow> 128 word" where
  "block_of bs = of_le_bytes (rev bs)"

text \<open>
  Modelled from the spec: the 16 bytes of a block, most significant first.
\<close>

definition block_bytes :: "128 word \<Rightarrow> bytes" where
  "block_bytes w = rev (le_bytes 16 w)"

text \<open>
  Modelled from the spec: the two-octet big-endian length and counter fields of the CCM*
  blocks, reduced modulo \<open>2^16\<close>.
\<close>

definition be16 :: "nat \<Rightarrow> bytes" where
  "be16 n = [of_nat (n div 256), of_nat n]"

text \<open>
  Modelled from the spec: the exclusive or of a byte string with the beginning of a key
  stream; the result is as long as the shorter of the two.
\<close>

definition xor_bytes :: "bytes \<Rightarrow> bytes \<Rightarrow> bytes" where
  "xor_bytes xs ys = map2 (\<lambda>x y. x XOR y) xs ys"

text \<open>
  Modelled from the spec: padding with zero bytes up to the next multiple of the block
  size \<open>ZB_SEC_BLOCKSIZE\<close> = 16.
\<close>

definition pad16 :: "bytes \<Rightarrow> bytes" where
  "pad16 xs = xs @ replicate ((16 - length xs mod 16) mod 16) 0"

text \<open>
  Modelled from the spec: a byte string cut into 16-byte blocks.
\<close>

definition blocks16 :: "bytes \<Rightarrow> bytes list" where
  "blocks16 xs = map (\<lambda>i. take 16 (drop (16 * i) xs)) [0..<(length xs + 15) div 16]"

text \<open>
  Modelled from the spec: the CCM* encoding of the length of the authenticated data:
  nothing for no data, two octets below \<open>0xFF00\<close>, and the escaped 4-octet and 8-octet forms
  above.
\<close>

definition encode_auth_length :: "nat \<Rightarrow> bytes" where
  "encode_auth_length n =
     (if n = 0 then []
      else if n < 0xFF00 then be16 n
      else if n < 2 ^ 32 then [0xFF, 0xFE] @ rev (le_bytes 4 (of_nat n :: u32))
      else [0xFF, 0xFF] @ rev (le_bytes 8 (of_nat n :: u64)))"

text \<open>
  Modelled from the spec: the authenticated data, preceded by its encoded length and
  padded to whole blocks.
\<close>

definition add_auth_data :: "bytes \<Rightarrow> bytes" where
  "add_auth_data a = pad16 (encode_auth_length (length a) @ a)"

text \<open>
  Modelled from the spec: the flags octet of the first authentication block: bit 6 says
  whether there is authenticated data, bits 3 to 5 hold \<open>(M - 2) / 2\<close> for a MIC of \<open>M\<close>
  bytes (0 for no MIC, which CCM* allows), bits 0 to 2 hold \<open>L - 1 = 1\<close> for the 2-byte
  length field that goes with a 13-byte nonce.
\<close>

definition auth_flags :: "nat \<Rightarrow> nat \<Rightarrow> u8" where
  "auth_flags M la =
     (if la = 0 then 0 else 0x40)
       OR push_bit 3 (if M = 0 then 0 else of_nat ((M - 2) div 2))
       OR 0x01"

text \<open>
  Modelled from the spec: the CBC-MAC chain over a list of blocks, from the zero block.
  The parameter \<open>E\<close> is the AES-128 block cipher of the primitive engine (key, then
  block), which neither the sources nor the spec define.
\<close>

definition cbc_mac :: "(128 word \<Rightarrow> 128 word \<Rightarrow> 128 word) \<Rightarrow> 128 word \<Rightarrow> bytes list \<Rightarrow> 128 word" where
  "cbc_mac E K bs = foldl (\<lambda>x b. E K (x XOR block_of b)) 0 bs"

text \<open>
  Modelled from the spec: the CCM* authentication tag of \<open>M\<close> bytes over the authenticated
  data \<open>a\<close> and the message \<open>m\<close>: the first \<open>M\<close> bytes of the CBC-MAC of the block made of
  flags, nonce and message length, followed by the blocks of \<open>a\<close> and of \<open>m\<close>.
\<close>

definition ccm_star_auth ::
  "(128 word \<Rightarrow> 128 word \<Rightarrow> 128 word) \<Rightarrow> 128 word \<Rightarrow> nat \<Rightarrow> bytes \<Rightarrow> bytes \<Rightarrow> bytes \<Rightarrow> bytes" where
  "ccm_star_auth E K M nonce a m =
     take M (block_bytes (cbc_mac E K
       ((auth_flags M (length a) # nonce @ be16 (length m))
          # blocks16 (add_auth_data a @ pad16 m))))"

text \<open>
  Modelled from the spec: the key stream block of counter \<open>i\<close>: the encryption of the
  block made of the flags octet \<open>0x01\<close>, the nonce and the 2-byte counter.
\<close>

definition ctr_block ::
  "(128 word \<Rightarrow> 128 word \<Rightarrow> 128 word) \<Rightarrow> 128 word \<Rightarrow> bytes \<Rightarrow> nat \<Rightarrow> bytes" where
  "ctr_block E K nonce i = block_bytes (E K (block_of (0x01 # nonce @ be16 i)))"

text \<open>
  Modelled from the spec: the first \<open>n\<close> bytes of the key stream, which starts at counter
  1 (counter 0 is kept for the tag).
\<close>

definition keystream ::
  "(128 word \<Rightarrow> 128 word \<Rightarrow> 128 word) \<Rightarrow> 128 word \<Rightarrow> bytes \<Rightarrow> nat \<Rightarrow> bytes" where
  "keystream E K nonce n =
     take n (concat (map (ctr_block E K nonce) [1..<Suc ((n + 15) div 16)]))"

text \<open>
  Modelled from the spec: encryption and decryption of a message in counter mode.
\<close>

definition ctr_crypt ::
  "(128 word \<Rightarrow> 128 word \<Rightarrow> 128 word) \<Rightarrow> 128 word \<Rightarrow> bytes \<Rightarrow> bytes \<Rightarrow> bytes" where
  "ctr_crypt E K nonce m = xor_bytes m (keystream E K nonce (length m))"

text \<open>
  Modelled from the spec: the CCM* transform, outgoing direction: the encrypted message
  and the tag, itself encrypted with the key stream block of counter 0.
\<close>

definition ccm_star_encrypt ::
  "(128 word \<Rightarrow> 128 word \<Rightarrow> 128 word) \<Rightarrow> 128 word \<Rightarrow> nat \<Rightarrow> bytes \<Rightarrow> bytes \<Rightarrow> bytes
   \<Rightarrow> bytes \<times> bytes" where
  "ccm_star_encrypt E K M nonce a m =
     (ctr_crypt E K nonce m, xor_bytes (ccm_star_auth E K M nonce a m) (ctr_block E K nonce 0))"

text \<open>
  Modelled from the spec: the CCM* transform, incoming direction. A MIC that is not
  exactly \<open>M\<close> bytes long, or that differs from the tag computed over the decrypted
  message, is an \<open>AuthFailure\<close> and no message is returned.
\<close>

definition ccm_star_decrypt ::
  "(128 word \<Rightarrow> 128 word \<Rightarrow> 128 word) \<Rightarrow> 128 word \<Rightarrow> nat \<Rightarrow> bytes \<Rightarrow> bytes \<Rightarrow> bytes \<Rightarrow> bytes
   \<Rightarrow> error + bytes" where
  "ccm_star_decrypt E K M nonce a c U =
     (if length U \<noteq> M then Inl AuthFailure
      else if xor_bytes U (ctr_block E K nonce 0)
              = ccm_star_auth E K M nonce a (ctr_crypt E K nonce c)
      then Inr (ctr_crypt E K nonce c)
      else Inl AuthFailure)"

text \<open>
  Modelled from the spec: \<open>encrypt(level, key, nonce, header_bytes, payload)\<close> of section
  4.6, absent from the sources. The MIC has \<open>ZB_SEC_MIC_LENGTH(level)\<close> bytes. With the
  encryption bit of the level set, the header is authenticated and the payload is
  encrypted and authenticated; with the bit clear the payload passes through unmodified
  and the MIC is computed over header and payload.
\<close>

definition encrypt ::
  "(128 word \<Rightarrow> 128 word \<Rightarrow> 128 word) \<Rightarrow> u8 \<Rightarrow> bytes \<Rightarrow> bytes \<Rightarrow> bytes \<Rightarrow> bytes \<Rightarrow> bytes \<times> bytes" where
  "encrypt E level key nonce header_bytes payload =
     (if ZB_SEC_ENCRYPTED level
      then ccm_star_encrypt E (block_of key) (unat (ZB_SEC_MIC_LENGTH level)) nonce
             header_bytes payload
      else (payload,
            snd (ccm_star_encrypt E (block_of key) (unat (ZB_SEC_MIC_LENGTH level)) nonce
                   (header_bytes @ payload) [])))"

text \<open>
  Modelled from the spec: \<open>decrypt(level, key, nonce, header_bytes, ciphertext, mic)\<close> of
  section 4.6, absent from the sources: the plaintext, or \<open>AuthFailure\<close>.
\<close>

definition decrypt ::
  "(128 word \<Rightarrow> 128 word \<Rightarrow> 128 word) \<Rightarrow> u8 \<Rightarrow> bytes \<Rightarrow> bytes \<Rightarrow> bytes \<Rightarrow> bytes \<Rightarrow> bytes
   \<Rightarrow> error + bytes" where
  "decrypt E level key nonce header_bytes ciphertext mic =
     (if ZB_SEC_ENCRYPTED level
      then ccm_star_decrypt E (block_of key) (unat (ZB_SEC_MIC_LENGTH level)) nonce
             header_bytes ciphertext mic
      else (case ccm_star_decrypt E (block_of key) (unat (ZB_SEC_MIC_LENGTH level)) nonce
                   (header_bytes @ ciphertext) [] mic of
              Inl e \<Rightarrow> Inl e
            | Inr _ \<Rightarrow> Inr ciphertext))"

lemmas cbke_defs =
  CBKE_PRIVATE_KEY_SIZE_def CBKE_COMPRESSED_PUBLIC_KEY_SIZE_def
  CBKE_CERT_SUBJECT_OFFSET_def CBKE_CERT_SUBJECT_SIZE_def
  CBKE_CERT_ISSUER_OFFSET_def CBKE_CERT_ISSUER_SIZE_def
  CBKE_CERT_DATA_OFFSET_def CBKE_CERT_DATA_SIZE_def CBKE_CERTIFICATE_SIZE_def

lemmas cbke2_defs =
  CBKE2_CERT_TYPE_OFFSET_def CBKE2_CERT_TYPE_SIZE_def
  CBKE2_CERT_SERIAL_OFFSET_def CBKE2_CERT_SERIAL_SIZE_def
  CBKE2_CERT_CURVE_OFFSET_def CBKE2_CERT_CURVE_SIZE_def
  CBKE2_CERT_HASH_OFFSET_def CBKE2_CERT_HASH_SIZE_def
  CBKE2_CERT_ISSUER_OFFSET_def CBKE2_CERT_ISSUER_SIZE_def
  CBKE2_CERT_VALID_FROM_OFFSET_def CBKE2_CERT_VALID_FROM_SIZE_def
  CBKE2_CERT_VALID_TO_OFFSET_def CBKE2_CERT_VALID_TO_SIZE_def
  CBKE2_CERT_SUBJECT_OFFSET_def CBKE2_CERT_SUBJECT_SIZE_def
  CBKE2_CERT_KEY_USAGE_OFFSET_def CBKE2_CERT_KEY_USAGE_SIZE_def
  CBKE2_CERT_PUBLIC_KEY_OFFSET_def CBKE2_CERT_PUBLIC_KEY_SIZE_def
  CBKE2_CERTIFICATE_SIZE_def

section \<open>Certificate layouts\<close>

text \<open>
  Claim C6. The CBKE (v1) certificate is 48 bytes long: the compressed public key
  takes the first 22 bytes (offsets 0 to 21), the subject the 8 bytes from offset 22,
  the issuer the 8 bytes from offset 30 and the data field the 10 bytes from offset 38,
  which ends at \<open>CBKE_CERTIFICATE_SIZE = 48\<close>.
\<close>

theorem cbke_certificate_layout:
  "CBKE_COMPRESSED_PUBLIC_KEY_SIZE = 22
   \<and> CBKE_CERT_SUBJECT_OFFSET = 22 \<and> CBKE_CERT_SUBJECT_SIZE = 8
   \<and> CBKE_CERT_ISSUER_OFFSET = 30 \<and> CBKE_CERT_ISSUER_SIZE = 8
   \<and> CBKE_CERT_DATA_OFFSET = 38 \<and> CBKE_CERT_DATA_SIZE = 10
   \<and> CBKE_CERTIFICATE_SIZE = 48
   \<and> unat CBKE_COMPRESSED_PUBLIC_KEY_SIZE + unat CBKE_CERT_SUBJECT_SIZE
       + unat CBKE_CERT_ISSUER_SIZE + unat CBKE_CERT_DATA_SIZE = unat CBKE_CERTIFICATE_SIZE"
  by (simp add: cbke_defs)

text \<open>
  Claim C1, as amended. The CBKE2 certificate is 74 bytes long, not 64: its ten fields
  (type 1, serial 8, curve 1, hash 1, issuer 8, valid-from 5, valid-to 4, subject 8,
  key usage 1, public key 37) lie one after the other from offset 0, each at the offset
  the header defines, their sizes sum to \<open>CBKE2_CERTIFICATE_SIZE\<close>, and that size is 74,
  the value of \<open>ZB_SEC_CRYPTO_SUITE_V2_CERT_LEN\<close>.
\<close>

theorem cbke2_certificate_layout:
  "CBKE2_CERT_TYPE_OFFSET = 0 \<and> CBKE2_CERT_TYPE_SIZE = 1
   \<and> CBKE2_CERT_SERIAL_OFFSET = 1 \<and> CBKE2_CERT_SERIAL_SIZE = 8
   \<and> CBKE2_CERT_CURVE_OFFSET = 9 \<and> CBKE2_CERT_CURVE_SIZE = 1
   \<and> CBKE2_CERT_HASH_OFFSET = 10 \<and> CBKE2_CERT_HASH_SIZE = 1
   \<and> CBKE2_CERT_ISSUER_OFFSET = 11 \<and> CBKE2_CERT_ISSUER_SIZE = 8
   \<and> CBKE2_CERT_VALID_FROM_OFFSET = 19 \<and> CBKE2_CERT_VALID_FROM_SIZE = 5
   \<and> CBKE2_CERT_VALID_TO_OFFSET = 24 \<and> CBKE2_CERT_VALID_TO_SIZE = 4
   \<and> CBKE2_CERT_SUBJECT_OFFSET = 28 \<and> CBKE2_CERT_SUBJECT_SIZE = 8
   \<and> CBKE2_CERT_KEY_USAGE_OFFSET = 36 \<and> CBKE2_CERT_KEY_USAGE_SIZE = 1
   \<and> CBKE2_CERT_PUBLIC_KEY_OFFSET = 37 \<and> CBKE2_CERT_PUBLIC_KEY_SIZE = 37
   \<and> unat CBKE2_CERT_TYPE_SIZE + unat CBKE2_CERT_SERIAL_SIZE + unat CBKE2_CERT_CURVE_SIZE
       + unat CBKE2_CERT_HASH_SIZE + unat CBKE2_CERT_ISSUER_SIZE
       + unat CBKE2_CERT_VALID_FROM_SIZE + unat CBKE2_CERT_VALID_TO_SIZE
       + unat CBKE2_CERT_SUBJECT_SIZE + unat CBKE2_CERT_KEY_USAGE_SIZE
       + unat CBKE2_CERT_PUBLIC_KEY_SIZE = unat CBKE2_CERTIFICATE_SIZE
   \<and> CBKE2_CERTIFICATE_SIZE = 74
   \<and> CBKE2_CERTIFICATE_SIZE = ZB_SEC_CRYPTO_SUITE_V2_CERT_LEN"
  by (simp add: cbke2_defs ZB_SEC_CRYPTO_SUITE_V2_CERT_LEN_def)

text \<open>
  Claim C1, as stated, fails: the size the header computes for the CBKE2 certificate
  is not 64, and neither is the sum of the ten field sizes.
\<close>

theorem cbke2_certificate_size_not_64:
  "CBKE2_CERTIFICATE_SIZE \<noteq> 64
   \<and> unat CBKE2_CERT_TYPE_SIZE + unat CBKE2_CERT_SERIAL_SIZE + unat CBKE2_CERT_CURVE_SIZE
       + unat CBKE2_CERT_HASH_SIZE + unat CBKE2_CERT_ISSUER_SIZE
       + unat CBKE2_CERT_VALID_FROM_SIZE + unat CBKE2_CERT_VALID_TO_SIZE
       + unat CBKE2_CERT_SUBJECT_SIZE + unat CBKE2_CERT_KEY_USAGE_SIZE
       + unat CBKE2_CERT_PUBLIC_KEY_SIZE \<noteq> 64"
  by (simp add: cbke2_defs)

section \<open>Security levels and the security control octet\<close>

lemma level_cases:
  fixes level :: u8
  assumes "level \<le> 7"
  shows "level \<in> {0, 1, 2, 3, 4, 5, 6, 7}"
proof -
  have "unat level \<le> 7"
    using assms by (simp add: word_le_nat_alt)
  then have "unat level \<in> {0, 1, 2, 3, 4, 5, 6, 7}"
    by auto
  then have "of_nat (unat level) \<in> ((of_nat ` {0, 1, 2, 3, 4, 5, 6, 7}) :: u8 set)"
    by blast
  then show ?thesis
    by simp
qed

text \<open>
  Claim C2. For every security level from 0 to 7 the MIC length is the entry of the
  table 0, 4, 8, 16, 0, 4, 8, 16 at that level, and the level is an encrypted one
  exactly when its bit 2 is set (levels 4 to 7). Flipping bit 2 flips the encryption
  and keeps the MIC length.
\<close>

theorem mic_length_and_encrypted:
  "level \<le> 7 \<Longrightarrow>
     ZB_SEC_MIC_LENGTH level = [0, 4, 8, 16, 0, 4, 8, 16] ! unat level
     \<and> (ZB_SEC_ENCRYPTED level \<longleftrightarrow> (level AND 4) \<noteq> 0)
     \<and> (ZB_SEC_ENCRYPTED level \<longleftrightarrow> 4 \<le> level)
     \<and> ZB_SEC_MIC_LENGTH (level XOR 4) = ZB_SEC_MIC_LENGTH level
     \<and> (ZB_SEC_ENCRYPTED (level XOR 4) \<longleftrightarrow> \<not> ZB_SEC_ENCRYPTED level)"
  using level_cases [of level]
  by (auto simp: ZB_SEC_MIC_LENGTH_def ZB_SEC_ENCRYPTED_def ZB_SEC_LEVEL_ENC_def
      word_le_nat_alt)

theorem mic_length_and_encrypted_witness:
  "(5 :: u8) \<le> 7 \<and> ZB_SEC_MIC_LENGTH 5 = 4 \<and> ZB_SEC_ENCRYPTED 5
   \<and> ZB_SEC_MIC_LENGTH 1 = 4 \<and> \<not> ZB_SEC_ENCRYPTED 1"
proof -
  have h: "(5 :: u8) \<le> 7"
    by simp
  show ?thesis
    using h mic_length_and_encrypted [OF h]
    by (simp add: ZB_SEC_MIC_LENGTH_def ZB_SEC_ENCRYPTED_def ZB_SEC_LEVEL_ENC_def)
qed

lemma keyid_field_le_3:
  "drop_bit (unat ZB_SEC_SECCTRL_OFFSET_KEYID) (b AND ZB_SEC_SECCTRL_MASK_KEYID) \<le> (3 :: u8)"
proof -
  have "drop_bit (unat ZB_SEC_SECCTRL_OFFSET_KEYID) (b AND ZB_SEC_SECCTRL_MASK_KEYID)
        = drop_bit 3 b AND 3"
    by (simp add: ZB_SEC_SECCTRL_OFFSET_KEYID_def ZB_SEC_SECCTRL_MASK_KEYID_def)
  then show ?thesis
    by (simp add: word_and_le1)
qed

lemma secctrl_keyid_range: "0 \<le> secctrl_keyid b \<and> secctrl_keyid b \<le> 3"
proof -
  have "uint (drop_bit (unat ZB_SEC_SECCTRL_OFFSET_KEYID) (b AND ZB_SEC_SECCTRL_MASK_KEYID))
        \<le> uint (3 :: u8)"
    using keyid_field_le_3 [of b] by (simp only: word_le_def)
  then show ?thesis
    by (simp add: secctrl_keyid_def)
qed

text \<open>
  Claim C10. Whatever the security control octet, the key identifier read from its
  bits 3 and 4 is the value of one of the four over-the-air enumerators (link, network,
  transport, key-load). The two add-on enumerators \<open>ZB_SEC_KEYID_BOTH_LINK_NETWORK\<close>
  (0xfe) and \<open>ZB_SEC_KEYID_DEFAULT\<close> (0xff) are larger than any value of the 2-bit field
  and are never read from an octet. Each of the four values is read from some octet.
\<close>

theorem secctrl_keyid_on_air:
  "secctrl_keyid b \<in> {ZbSecHdrKeyIdT_value ZB_SEC_KEYID_LINK,
                       ZbSecHdrKeyIdT_value ZB_SEC_KEYID_NETWORK,
                       ZbSecHdrKeyIdT_value ZB_SEC_KEYID_TRANSPORT,
                       ZbSecHdrKeyIdT_value ZB_SEC_KEYID_KEYLOAD}
   \<and> secctrl_keyid b < ZbSecHdrKeyIdT_value ZB_SEC_KEYID_BOTH_LINK_NETWORK
   \<and> secctrl_keyid b < ZbSecHdrKeyIdT_value ZB_SEC_KEYID_DEFAULT
   \<and> secctrl_keyid b \<noteq> ZbSecHdrKeyIdT_value ZB_SEC_KEYID_BOTH_LINK_NETWORK
   \<and> secctrl_keyid b \<noteq> ZbSecHdrKeyIdT_value ZB_SEC_KEYID_DEFAULT
   \<and> ZbSecHdrKeyIdT_value ZB_SEC_KEYID_BOTH_LINK_NETWORK = 0xfe
   \<and> ZbSecHdrKeyIdT_value ZB_SEC_KEYID_DEFAULT = 0xff
   \<and> secctrl_keyid 0x00 = 0 \<and> secctrl_keyid 0x08 = 1
   \<and> secctrl_keyid 0x10 = 2 \<and> secctrl_keyid 0x18 = 3"
proof -
  have r: "0 \<le> secctrl_keyid b \<and> secctrl_keyid b \<le> 3"
    by (rule secctrl_keyid_range)
  then have "secctrl_keyid b \<in> {0, 1, 2, 3}"
    by auto
  moreover have "secctrl_keyid 0x00 = 0 \<and> secctrl_keyid 0x08 = 1
      \<and> secctrl_keyid 0x10 = 2 \<and> secctrl_keyid 0x18 = 3"
    by (simp add: secctrl_keyid_def ZB_SEC_SECCTRL_OFFSET_KEYID_def
        ZB_SEC_SECCTRL_MASK_KEYID_def)
  ultimately show ?thesis
    using r by simp
qed

section \<open>Frame counters\<close>










lemma next_outgoing_fails_iff:
  "fst (next_outgoing t peer key_id) = Inl CounterExhausted \<longleftrightarrow>
     local_counter t (peer, key_id) = ZB_SEC_MAX_FRAME_COUNTER"
proof -
  have "unat (local_counter t (peer, key_id)) < 2 ^ 32"
    using unsigned_less [of "local_counter t (peer, key_id)"] by simp
  moreover have "local_counter t (peer, key_id) = 0xffffffff \<longleftrightarrow>
      unat (local_counter t (peer, key_id)) = unat (0xffffffff :: u32)"
    by (simp only: word_unat_eq_iff)
  ultimately show ?thesis
    by (auto simp: next_outgoing_def ZB_SEC_MAX_FRAME_COUNTER_def)
qed

lemma next_outgoing_failure_state:
  "fst (next_outgoing t peer key_id) = Inl CounterExhausted \<Longrightarrow> snd (next_outgoing t peer key_id) = t"
  by (auto simp: next_outgoing_def split: if_splits)

lemma next_outgoing_success:
  assumes "local_counter t (peer, key_id) \<noteq> ZB_SEC_MAX_FRAME_COUNTER"
  shows "next_outgoing t peer key_id
         = (Inr (local_counter t (peer, key_id) + 1),
            t\<lparr>local_counter :=
                (local_counter t)((peer, key_id) := local_counter t (peer, key_id) + 1)\<rparr>)"
    and "unat (local_counter t (peer, key_id) + 1) = unat (local_counter t (peer, key_id)) + 1"
proof -
  have ne: "fst (next_outgoing t peer key_id) \<noteq> Inl CounterExhausted"
    using assms by (simp add: next_outgoing_fails_iff)
  then have small: "\<not> unat (local_counter t (peer, key_id)) + 1 > unat ZB_SEC_MAX_FRAME_COUNTER"
    by (auto simp: next_outgoing_def split: if_splits)
  then show "next_outgoing t peer key_id
         = (Inr (local_counter t (peer, key_id) + 1),
            t\<lparr>local_counter :=
                (local_counter t)((peer, key_id) := local_counter t (peer, key_id) + 1)\<rparr>)"
    by (simp add: next_outgoing_def)
  from small have "unat (local_counter t (peer, key_id)) + 1 < 2 ^ 32"
    by (simp add: ZB_SEC_MAX_FRAME_COUNTER_def)
  then show "unat (local_counter t (peer, key_id) + 1) = unat (local_counter t (peer, key_id)) + 1"
    by (simp add: unat_word_ariths)
qed

lemma next_outgoing_mono:
  "unat (local_counter t pk) \<le> unat (local_counter (snd (next_outgoing t peer key_id)) pk)"
proof (cases "local_counter t (peer, key_id) = ZB_SEC_MAX_FRAME_COUNTER")
  case True
  then show ?thesis
    by (simp add: next_outgoing_failure_state next_outgoing_fails_iff)
next
  case False
  then show ?thesis
    using next_outgoing_success [of t peer key_id] by simp
qed

lemma accept_local_counter:
  "local_counter (snd (accept_and_advance t peer key_id c)) = local_counter t"
  by (simp add: accept_and_advance_def)

lemma tracker_step_mono:
  "unat (local_counter t pk) \<le> unat (local_counter (tracker_step t call) pk)"
  by (cases call) (simp_all add: accept_local_counter next_outgoing_mono)

lemma tracker_run_mono:
  "unat (local_counter t pk) \<le> unat (local_counter (tracker_run t calls) pk)"
proof (induction calls arbitrary: t)
  case Nil
  then show ?case by simp
next
  case (Cons call calls)
  have "unat (local_counter t pk) \<le> unat (local_counter (tracker_step t call) pk)"
    by (rule tracker_step_mono)
  also have "\<dots> \<le> unat (local_counter (tracker_run (tracker_step t call) calls) pk)"
    by (rule Cons.IH)
  finally show ?case by simp
qed

lemma exhausted_stays:
  assumes "local_counter t pk = ZB_SEC_MAX_FRAME_COUNTER"
  shows "local_counter (tracker_run t calls) pk = ZB_SEC_MAX_FRAME_COUNTER"
proof -
  have "unat (local_counter t pk) \<le> unat (local_counter (tracker_run t calls) pk)"
    by (rule tracker_run_mono)
  moreover have "unat (local_counter (tracker_run t calls) pk) < 2 ^ 32"
    using unsigned_less [of "local_counter (tracker_run t calls) pk"] by simp
  ultimately have "unat (local_counter (tracker_run t calls) pk) = unat (0xffffffff :: u32)"
    using assms by (simp add: ZB_SEC_MAX_FRAME_COUNTER_def)
  then show ?thesis
    by (simp only: word_unat_eq_iff ZB_SEC_MAX_FRAME_COUNTER_def)
qed

text \<open>
  Claim C4. \<open>next_outgoing\<close> fails, with \<open>CounterExhausted\<close>, exactly when the local
  counter plus one would exceed \<open>ZB_SEC_MAX_FRAME_COUNTER\<close> = 0xFFFFFFFF, that is when
  the counter is 0xFFFFFFFF. Otherwise it returns the counter plus one (without
  wrap-around) and stores it. The counter of a key never becomes smaller, over one
  call or over any run of tracker calls. A failure leaves the tracker as it is, and
  after it every later \<open>next_outgoing\<close> on the same key fails too, whatever tracker
  calls are made in between: only replacing the key, which is no tracker call, ends it.
\<close>

theorem next_outgoing_spec:
  "(fst (next_outgoing t peer key_id) = Inl CounterExhausted \<longleftrightarrow>
      unat (local_counter t (peer, key_id)) + 1 > unat ZB_SEC_MAX_FRAME_COUNTER)
   \<and> ZB_SEC_MAX_FRAME_COUNTER = 0xFFFFFFFF
   \<and> (fst (next_outgoing t peer key_id) \<noteq> Inl CounterExhausted \<longrightarrow>
        fst (next_outgoing t peer key_id) = Inr (local_counter t (peer, key_id) + 1)
        \<and> unat (local_counter t (peer, key_id) + 1) = unat (local_counter t (peer, key_id)) + 1
        \<and> local_counter (snd (next_outgoing t peer key_id)) (peer, key_id)
            = local_counter t (peer, key_id) + 1)
   \<and> unat (local_counter t (peer, key_id))
        \<le> unat (local_counter (snd (next_outgoing t peer key_id)) (peer, key_id))
   \<and> unat (local_counter t (peer, key_id))
        \<le> unat (local_counter (tracker_run t calls) (peer, key_id))
   \<and> (fst (next_outgoing t peer key_id) = Inl CounterExhausted \<longrightarrow>
        snd (next_outgoing t peer key_id) = t
        \<and> fst (next_outgoing (tracker_run t calls) peer key_id) = Inl CounterExhausted)"
proof -
  have 1: "fst (next_outgoing t peer key_id) = Inl CounterExhausted \<longleftrightarrow>
      unat (local_counter t (peer, key_id)) + 1 > unat ZB_SEC_MAX_FRAME_COUNTER"
    by (simp add: next_outgoing_def)
  have 2: "fst (next_outgoing t peer key_id) \<noteq> Inl CounterExhausted \<longrightarrow>
        fst (next_outgoing t peer key_id) = Inr (local_counter t (peer, key_id) + 1)
        \<and> unat (local_counter t (peer, key_id) + 1) = unat (local_counter t (peer, key_id)) + 1
        \<and> local_counter (snd (next_outgoing t peer key_id)) (peer, key_id)
            = local_counter t (peer, key_id) + 1"
    using next_outgoing_success [of t peer key_id]
    by (simp add: next_outgoing_fails_iff)
  have 3: "fst (next_outgoing t peer key_id) = Inl CounterExhausted \<longrightarrow>
        snd (next_outgoing t peer key_id) = t
        \<and> fst (next_outgoing (tracker_run t calls) peer key_id) = Inl CounterExhausted"
    using exhausted_stays [of t "(peer, key_id)" calls]
    by (simp add: next_outgoing_failure_state next_outgoing_fails_iff)
  show ?thesis
    using 1 2 3 next_outgoing_mono [of t "(peer, key_id)" peer key_id]
      tracker_run_mono [of t "(peer, key_id)" calls]
    by (simp add: ZB_SEC_MAX_FRAME_COUNTER_def)
qed

theorem next_outgoing_spec_witness:
  "fst (next_outgoing tracker_init 1 ZB_SEC_KEYID_LINK) = Inr 1
   \<and> local_counter (snd (next_outgoing tracker_init 1 ZB_SEC_KEYID_LINK)) (1, ZB_SEC_KEYID_LINK) = 1
   \<and> fst (next_outgoing (tracker_init\<lparr>local_counter := (\<lambda>_. 0xFFFFFFFF)\<rparr>) 1 ZB_SEC_KEYID_LINK)
       = Inl CounterExhausted
   \<and> fst (next_outgoing
            (tracker_run (tracker_init\<lparr>local_counter := (\<lambda>_. 0xFFFFFFFF)\<rparr>)
               [Next_outgoing 1 ZB_SEC_KEYID_LINK, Accept_and_advance 1 ZB_SEC_KEYID_LINK 7,
                Next_outgoing 2 ZB_SEC_KEYID_LINK])
            1 ZB_SEC_KEYID_LINK)
       = Inl CounterExhausted"
proof -
  let ?tx = "tracker_init\<lparr>local_counter := (\<lambda>_. 0xFFFFFFFF)\<rparr>"
  let ?calls = "[Next_outgoing 1 ZB_SEC_KEYID_LINK, Accept_and_advance 1 ZB_SEC_KEYID_LINK 7,
                 Next_outgoing 2 ZB_SEC_KEYID_LINK]"
  note fresh = next_outgoing_spec [of tracker_init 1 ZB_SEC_KEYID_LINK "[]"]
  note full = next_outgoing_spec [of ?tx 1 ZB_SEC_KEYID_LINK ?calls]
  have a: "\<not> unat (local_counter tracker_init (1, ZB_SEC_KEYID_LINK)) + 1
             > unat ZB_SEC_MAX_FRAME_COUNTER"
    and b: "unat (local_counter ?tx (1, ZB_SEC_KEYID_LINK)) + 1 > unat ZB_SEC_MAX_FRAME_COUNTER"
    by (simp_all add: tracker_init_def ZB_SEC_MAX_FRAME_COUNTER_def)
  have c: "local_counter tracker_init (1, ZB_SEC_KEYID_LINK) + 1 = 1"
    by (simp add: tracker_init_def)
  have ok: "fst (next_outgoing tracker_init 1 ZB_SEC_KEYID_LINK) \<noteq> Inl CounterExhausted"
    using a fresh by blast
  have "fst (next_outgoing tracker_init 1 ZB_SEC_KEYID_LINK)
          = Inr (local_counter tracker_init (1, ZB_SEC_KEYID_LINK) + 1)"
    and "local_counter (snd (next_outgoing tracker_init 1 ZB_SEC_KEYID_LINK)) (1, ZB_SEC_KEYID_LINK)
          = local_counter tracker_init (1, ZB_SEC_KEYID_LINK) + 1"
    using ok fresh by blast+
  then have first: "fst (next_outgoing tracker_init 1 ZB_SEC_KEYID_LINK) = Inr 1"
    and stored: "local_counter (snd (next_outgoing tracker_init 1 ZB_SEC_KEYID_LINK))
                   (1, ZB_SEC_KEYID_LINK) = 1"
    by (simp_all only: c)
  have exhausted: "fst (next_outgoing ?tx 1 ZB_SEC_KEYID_LINK) = Inl CounterExhausted"
    using b full by blast
  have later: "fst (next_outgoing (tracker_run ?tx ?calls) 1 ZB_SEC_KEYID_LINK)
                 = Inl CounterExhausted"
    using exhausted full by blast
  show ?thesis
    using first stored exhausted later by blast
qed

section \<open>The nonce\<close>

lemma length_le_bytes: "length (le_bytes n w) = n"
  by (induction n arbitrary: w) simp_all

lemma le_bytes_numeral:
  "le_bytes (numeral k) w = ucast w # le_bytes (pred_numeral k) (drop_bit 8 w)"
  by (simp add: numeral_eq_Suc)

lemma of_le_bytes_le_bytes:
  fixes w :: "'a::len word"
  shows "of_le_bytes (le_bytes n w) = take_bit (8 * n) w"
proof (induction n arbitrary: w)
  case 0
  then show ?case by simp
next
  case (Suc n)
  have "(ucast (ucast w :: u8) :: 'a word) OR push_bit 8 (take_bit (8 * n) (drop_bit 8 w))
        = take_bit (8 * Suc n) w"
  proof (rule bit_eqI)
    fix k
    assume "possible_bit TYPE('a word) k"
    show "bit ((ucast (ucast w :: u8) :: 'a word) OR push_bit 8 (take_bit (8 * n) (drop_bit 8 w))) k
          = bit (take_bit (8 * Suc n) w) k"
    proof (cases "k < 8")
      case True
      then show ?thesis
        by (auto simp: bit_simps dest: bit_imp_le_length)
    next
      case False
      then have "8 + (k - 8) = k"
        by simp
      then show ?thesis
        using False by (auto simp: bit_simps dest: bit_imp_le_length)
    qed
  qed
  then show ?case
    by (simp add: Suc.IH)
qed

lemma of_le_bytes_u64: "of_le_bytes (le_bytes 8 (w :: u64)) = w"
  by (simp add: of_le_bytes_le_bytes take_bit_word_beyond_length_eq)

lemma of_le_bytes_u32: "of_le_bytes (le_bytes 4 (w :: u32)) = w"
  by (simp add: of_le_bytes_le_bytes take_bit_word_beyond_length_eq)

lemma build_nonce_parts:
  "take 8 (build_nonce a c s) = le_bytes 8 a"
  "take 4 (drop 8 (build_nonce a c s)) = le_bytes 4 c"
  "drop 12 (build_nonce a c s) = [s]"
  by (simp_all add: build_nonce_def length_le_bytes)

lemma build_nonce_example:
  "build_nonce 0x0807060504030201 0x0d0c0b0a 0x28
   = [0x01, 0x02, 0x03, 0x04, 0x05, 0x06, 0x07, 0x08, 0x0a, 0x0b, 0x0c, 0x0d, 0x28]"
  by (simp add: build_nonce_def le_bytes_numeral)

text \<open>
  Claim C9. \<open>build_nonce\<close> is a function of the source extended address, the frame
  counter and the security control octet alone. Its result always has
  \<open>ZB_SEC_NONCE_LENGTH\<close> = 13 bytes: the first 8 are the octets of the address, the next
  4 the octets of the frame counter, the last one is the security control octet. The
  three inputs are read back from the nonce, so equal inputs give equal nonces and
  different inputs give different nonces.
\<close>

theorem build_nonce_spec:
  "length (build_nonce a c s) = unat ZB_SEC_NONCE_LENGTH
   \<and> ZB_SEC_NONCE_LENGTH = 13
   \<and> build_nonce a c s = le_bytes 8 a @ le_bytes 4 c @ [s]
   \<and> length (le_bytes 8 a) = 8 \<and> length (le_bytes 4 c) = 4
   \<and> of_le_bytes (take 8 (build_nonce a c s)) = a
   \<and> of_le_bytes (take 4 (drop 8 (build_nonce a c s))) = c
   \<and> drop 12 (build_nonce a c s) = [s]
   \<and> (build_nonce a c s = build_nonce a' c' s' \<longleftrightarrow> a = a' \<and> c = c' \<and> s = s')"
proof -
  have len: "length (build_nonce a c s) = 13"
    by (simp add: build_nonce_def length_le_bytes)
  have ra: "of_le_bytes (take 8 (build_nonce a c s)) = a"
    and rc: "of_le_bytes (take 4 (drop 8 (build_nonce a c s))) = c"
    by (simp_all only: build_nonce_parts of_le_bytes_u64 of_le_bytes_u32)
  have inj: "a = a' \<and> c = c' \<and> s = s'" if eq: "build_nonce a c s = build_nonce a' c' s'"
  proof -
    have "le_bytes 8 a = le_bytes 8 a'"
      using eq build_nonce_parts(1) [of a c s] build_nonce_parts(1) [of a' c' s'] by simp
    then have "(of_le_bytes (le_bytes 8 a) :: u64) = of_le_bytes (le_bytes 8 a')"
      by simp
    then have 1: "a = a'"
      by (simp only: of_le_bytes_u64)
    have "le_bytes 4 c = le_bytes 4 c'"
      using eq build_nonce_parts(2) [of a c s] build_nonce_parts(2) [of a' c' s'] by simp
    then have "(of_le_bytes (le_bytes 4 c) :: u32) = of_le_bytes (le_bytes 4 c')"
      by simp
    then have 2: "c = c'"
      by (simp only: of_le_bytes_u32)
    have "[s] = [s']"
      using eq build_nonce_parts(3) [of a c s] build_nonce_parts(3) [of a' c' s'] by simp
    then show ?thesis
      using 1 2 by simp
  qed
  have "build_nonce a c s = build_nonce a' c' s' \<longleftrightarrow> a = a' \<and> c = c' \<and> s = s'"
    using inj by blast
  then show ?thesis
    using len ra rc build_nonce_parts(3) [of a c s]
    by (simp add: ZB_SEC_NONCE_LENGTH_def length_le_bytes build_nonce_def [of a c s])
qed

section \<open>Install codes\<close>

lemma install_code_split:
  "2 \<le> length ic \<Longrightarrow>
     install_code_crc_ok crc16 ic \<longleftrightarrow>
       ic = install_code_content ic @ le_bytes 2 (crc16 (install_code_content ic))"
proof -
  assume "2 \<le> length ic"
  have "ic = take (length ic - 2) ic @ drop (length ic - 2) ic"
    by simp
  then have "ic = install_code_content ic @ drop (length ic - 2) ic"
    by (simp add: install_code_content_def)
  then show ?thesis
    unfolding install_code_crc_ok_def
    by (metis same_append_eq)
qed

lemma install_code_success:
  assumes "length ic \<in> {6, 8, 12, 16, 18}" and "install_code_crc_ok crc16 ic"
  shows "ZbSecAddDeviceLinkKeyByInstallCode crc16 AesMmoHash zb extAddr ic
         = Inr (zb\<lparr>key_store := (key_store zb)((ZB_SEC_KEYTYPE_TC_LINK, Some extAddr) \<mapsto>
                  \<lparr>key_material = AesMmoHash (install_code_content ic),
                   key_type = ZB_SEC_KEYTYPE_TC_LINK,
                   key_peer = Some extAddr,
                   frame_counter = 0\<rparr>)\<rparr>)"
  using assms
  by (auto simp: ZbSecAddDeviceLinkKeyByInstallCode_def install_code_lengths_def
      add_or_replace_def)

lemma install_code_bad_length:
  assumes "length ic \<notin> {6, 8, 12, 16, 18}"
  shows "ZbSecAddDeviceLinkKeyByInstallCode crc16 AesMmoHash zb extAddr ic
         = Inl (InvalidInstallCode UnsupportedLength)"
  using assms
  by (simp add: ZbSecAddDeviceLinkKeyByInstallCode_def install_code_lengths_def)

lemma install_code_bad_crc:
  assumes "length ic \<in> {6, 8, 12, 16, 18}" and "\<not> install_code_crc_ok crc16 ic"
  shows "ZbSecAddDeviceLinkKeyByInstallCode crc16 AesMmoHash zb extAddr ic
         = Inl (InvalidInstallCode CrcMismatch)"
  using assms
  by (auto simp: ZbSecAddDeviceLinkKeyByInstallCode_def install_code_lengths_def)

text \<open>
  Claim C7. \<^verbatim>\<open>ZbSecAddDeviceLinkKeyByInstallCode\<close> succeeds exactly for the install codes
  whose total length, trailing 2-byte CRC included, is one of 6, 8, 12, 16 and 18 (none
  above \<open>ZB_SEC_INSTALL_CODE_MAX_LENGTH\<close> = 18, which is one of them) and whose last two
  bytes are the CRC-16 of the content before them. Every other length fails with
  \<open>UnsupportedLength\<close>; a permitted length with a wrong CRC fails with \<open>CrcMismatch\<close>. On
  success the store holds, as Trust-Center link key of the peer, the AES-MMO hash of the
  content, and no other entry of the store has changed.
\<close>

theorem install_code_spec:
  "((\<exists>zb'. ZbSecAddDeviceLinkKeyByInstallCode crc16 AesMmoHash zb extAddr ic = Inr zb') \<longleftrightarrow>
      length ic \<in> {6, 8, 12, 16, 18}
      \<and> ic = install_code_content ic @ le_bytes 2 (crc16 (install_code_content ic)))
   \<and> (length ic \<notin> {6, 8, 12, 16, 18} \<longrightarrow>
        ZbSecAddDeviceLinkKeyByInstallCode crc16 AesMmoHash zb extAddr ic
          = Inl (InvalidInstallCode UnsupportedLength))
   \<and> (length ic \<in> {6, 8, 12, 16, 18}
        \<and> ic \<noteq> install_code_content ic @ le_bytes 2 (crc16 (install_code_content ic)) \<longrightarrow>
        ZbSecAddDeviceLinkKeyByInstallCode crc16 AesMmoHash zb extAddr ic
          = Inl (InvalidInstallCode CrcMismatch))
   \<and> (length ic \<in> {6, 8, 12, 16, 18} \<longrightarrow>
        length ic \<le> unat ZB_SEC_INSTALL_CODE_MAX_LENGTH
        \<and> length (install_code_content ic) + 2 = length ic)
   \<and> unat ZB_SEC_INSTALL_CODE_MAX_LENGTH = 18
   \<and> (\<forall>zb'. ZbSecAddDeviceLinkKeyByInstallCode crc16 AesMmoHash zb extAddr ic = Inr zb' \<longrightarrow>
        key_store zb' (ZB_SEC_KEYTYPE_TC_LINK, Some extAddr)
          = Some \<lparr>key_material = AesMmoHash (install_code_content ic),
                  key_type = ZB_SEC_KEYTYPE_TC_LINK,
                  key_peer = Some extAddr,
                  frame_counter = 0\<rparr>
        \<and> (\<forall>slot. slot \<noteq> (ZB_SEC_KEYTYPE_TC_LINK, Some extAddr) \<longrightarrow>
              key_store zb' slot = key_store zb slot))"
proof (cases "length ic \<in> {6, 8, 12, 16, 18}")
  case False
  then show ?thesis
    using install_code_bad_length [of ic crc16 AesMmoHash zb extAddr]
    by (simp add: ZB_SEC_INSTALL_CODE_MAX_LENGTH_def)
next
  case len: True
  then have two: "2 \<le> length ic"
    by auto
  have content: "length (install_code_content ic) + 2 = length ic"
    using two by (simp add: install_code_content_def)
  have bound: "length ic \<le> unat ZB_SEC_INSTALL_CODE_MAX_LENGTH"
    using len by (auto simp: ZB_SEC_INSTALL_CODE_MAX_LENGTH_def)
  show ?thesis
  proof (cases "install_code_crc_ok crc16 ic")
    case True
    then have "ic = install_code_content ic @ le_bytes 2 (crc16 (install_code_content ic))"
      using install_code_split [OF two] by simp
    then show ?thesis
      using len content bound install_code_success [OF len True, of AesMmoHash zb extAddr]
      by (simp add: ZB_SEC_INSTALL_CODE_MAX_LENGTH_def)
  next
    case False
    then have "ic \<noteq> install_code_content ic @ le_bytes 2 (crc16 (install_code_content ic))"
      using install_code_split [OF two] by simp
    then show ?thesis
      using len content bound install_code_bad_crc [OF len False, of AesMmoHash zb extAddr]
      by (simp add: ZB_SEC_INSTALL_CODE_MAX_LENGTH_def)
  qed
qed

theorem install_code_spec_witness:
  "(\<exists>zb'. ZbSecAddDeviceLinkKeyByInstallCode (\<lambda>bs. of_nat (length bs) + 0x0100) rev
            \<lparr>key_store = Map.empty\<rparr> 7 [1, 2, 3, 4, 4, 1] = Inr zb'
          \<and> key_store zb' (ZB_SEC_KEYTYPE_TC_LINK, Some 7)
              = Some \<lparr>key_material = [4, 3, 2, 1], key_type = ZB_SEC_KEYTYPE_TC_LINK,
                      key_peer = Some 7, frame_counter = 0\<rparr>)
   \<and> ZbSecAddDeviceLinkKeyByInstallCode (\<lambda>bs. of_nat (length bs) + 0x0100) rev
        \<lparr>key_store = Map.empty\<rparr> 7 [1, 2, 3, 4, 0, 0] = Inl (InvalidInstallCode CrcMismatch)
   \<and> ZbSecAddDeviceLinkKeyByInstallCode (\<lambda>bs. of_nat (length bs) + 0x0100) rev
        \<lparr>key_store = Map.empty\<rparr> 7 [1, 2, 3, 4, 5, 5, 1] = Inl (InvalidInstallCode UnsupportedLength)"
proof -
  let ?crc = "\<lambda>bs :: bytes. (of_nat (length bs) + 0x0100 :: u16)"
  let ?zb = "\<lparr>key_store = Map.empty\<rparr>"
  let ?good = "[1, 2, 3, 4, 4, 1] :: bytes"
  let ?badcrc = "[1, 2, 3, 4, 0, 0] :: bytes"
  let ?badlen = "[1, 2, 3, 4, 5, 5, 1] :: bytes"
  note good = install_code_spec [of ?crc rev ?zb 7 ?good]
  note badcrc = install_code_spec [of ?crc rev ?zb 7 ?badcrc]
  note badlen = install_code_spec [of ?crc rev ?zb 7 ?badlen]
  have l1: "length ?good \<in> {6, 8, 12, 16, 18}" and l2: "length ?badcrc \<in> {6, 8, 12, 16, 18}"
    and l3: "length ?badlen \<notin> {6, 8, 12, 16, 18}"
    by simp_all
  have c1: "?good = install_code_content ?good @ le_bytes 2 (?crc (install_code_content ?good))"
    and c2: "?badcrc \<noteq> install_code_content ?badcrc
               @ le_bytes 2 (?crc (install_code_content ?badcrc))"
    by (simp_all add: install_code_content_def le_bytes_numeral)
  have h: "rev (install_code_content ?good) = [4, 3, 2, 1]"
    by (simp add: install_code_content_def)
  obtain zb' where ok: "ZbSecAddDeviceLinkKeyByInstallCode ?crc rev ?zb 7 ?good = Inr zb'"
    using l1 c1 good by blast
  then have "key_store zb' (ZB_SEC_KEYTYPE_TC_LINK, Some 7)
      = Some \<lparr>key_material = rev (install_code_content ?good), key_type = ZB_SEC_KEYTYPE_TC_LINK,
              key_peer = Some 7, frame_counter = 0\<rparr>"
    using good by blast
  then have stored: "key_store zb' (ZB_SEC_KEYTYPE_TC_LINK, Some 7)
      = Some \<lparr>key_material = [4, 3, 2, 1], key_type = ZB_SEC_KEYTYPE_TC_LINK,
              key_peer = Some 7, frame_counter = 0\<rparr>"
    by (simp only: h)
  have r2: "ZbSecAddDeviceLinkKeyByInstallCode ?crc rev ?zb 7 ?badcrc
            = Inl (InvalidInstallCode CrcMismatch)"
    using l2 c2 badcrc by blast
  have r3: "ZbSecAddDeviceLinkKeyByInstallCode ?crc rev ?zb 7 ?badlen
            = Inl (InvalidInstallCode UnsupportedLength)"
    using l3 badlen by blast
  show ?thesis
    using ok stored r2 r3 by blast
qed

section \<open>ECDSA validation\<close>







section \<open>The CCM* transform\<close>

lemma xor_bytes_cancel:
  "length xs \<le> length ks \<Longrightarrow> xor_bytes (xor_bytes xs ks) ks = xs"
proof (induction xs arbitrary: ks)
  case Nil
  then show ?case by (simp add: xor_bytes_def)
next
  case (Cons x xs)
  then obtain k ks' where ks: "ks = k # ks'"
    by (cases ks) auto
  with Cons.prems have "length xs \<le> length ks'"
    by simp
  then have "xor_bytes (xor_bytes xs ks') ks' = xs"
    by (rule Cons.IH)
  then show ?case
    by (simp add: ks xor_bytes_def xor.assoc)
qed

lemma length_xor_bytes: "length (xor_bytes xs ks) = min (length xs) (length ks)"
  by (simp add: xor_bytes_def)

lemma length_block_bytes: "length (block_bytes w) = 16"
  by (simp add: block_bytes_def length_le_bytes)

lemma length_ctr_block: "length (ctr_block E K nonce i) = 16"
  by (simp add: ctr_block_def length_block_bytes)

lemma length_concat_blocks:
  "length (concat (map (ctr_block E K nonce) is)) = 16 * length is"
  by (induction "is") (simp_all add: length_ctr_block)

lemma length_keystream: "length (keystream E K nonce n) = n"
proof -
  have "n \<le> 16 * ((n + 15) div 16)"
    by presburger
  then show ?thesis
    by (simp add: keystream_def length_concat_blocks)
qed

lemma ctr_crypt_involution: "ctr_crypt E K nonce (ctr_crypt E K nonce m) = m"
proof -
  have "length (ctr_crypt E K nonce m) = length m"
    by (simp add: ctr_crypt_def length_xor_bytes length_keystream)
  then show ?thesis
    by (simp add: ctr_crypt_def xor_bytes_cancel length_keystream)
qed

lemma mic_length_le_16: "unat (ZB_SEC_MIC_LENGTH level) \<le> 16"
proof -
  let ?x = "ucast level AND (0x3 :: u32)"
  have "?x \<le> 3"
    by (rule word_and_le1)
  then have "unat ?x \<le> 3"
    by (simp add: word_le_nat_alt)
  then have "unat ?x \<in> {0, 1, 2, 3}"
    by auto
  then show ?thesis
    unfolding ZB_SEC_MIC_LENGTH_def by auto
qed

lemma length_ccm_star_auth:
  "M \<le> 16 \<Longrightarrow> length (ccm_star_auth E K M nonce a m) = M"
  by (simp add: ccm_star_auth_def length_block_bytes)

lemma ccm_star_roundtrip:
  assumes "M \<le> 16"
  shows "ccm_star_decrypt E K M nonce a (fst (ccm_star_encrypt E K M nonce a m))
           (snd (ccm_star_encrypt E K M nonce a m)) = Inr m"
proof -
  let ?T = "ccm_star_auth E K M nonce a m"
  let ?S0 = "ctr_block E K nonce 0"
  have lenT: "length ?T = M"
    using assms by (rule length_ccm_star_auth)
  then have "length (xor_bytes ?T ?S0) = M"
    using assms by (simp add: length_xor_bytes length_ctr_block)
  moreover have "xor_bytes (xor_bytes ?T ?S0) ?S0 = ?T"
    using assms lenT by (simp add: xor_bytes_cancel length_ctr_block)
  ultimately show ?thesis
    by (simp add: ccm_star_decrypt_def ccm_star_encrypt_def ctr_crypt_involution)
qed

text \<open>
  Claim C5. For every security level, key, nonce, header and payload, and whatever the
  block cipher, \<open>decrypt\<close> applied to the ciphertext and the MIC that \<open>encrypt\<close> produces
  from the payload returns the payload. This holds in particular for the levels 0 to 7,
  the 16-byte keys, the 13-byte nonces and the payloads of 0 to 256 bytes.
\<close>

theorem decrypt_encrypt:
  "decrypt E level key nonce header_bytes
     (fst (encrypt E level key nonce header_bytes payload))
     (snd (encrypt E level key nonce header_bytes payload)) = Inr payload"
proof (cases "ZB_SEC_ENCRYPTED level")
  case True
  then show ?thesis
    using ccm_star_roundtrip [OF mic_length_le_16 [of level]]
    by (simp add: decrypt_def encrypt_def)
next
  case False
  have "ccm_star_decrypt E (block_of key) (unat (ZB_SEC_MIC_LENGTH level)) nonce
          (header_bytes @ payload) []
          (snd (ccm_star_encrypt E (block_of key) (unat (ZB_SEC_MIC_LENGTH level)) nonce
                  (header_bytes @ payload) [])) = Inr []"
    using ccm_star_roundtrip [OF mic_length_le_16 [of level], of E "block_of key" nonce
        "header_bytes @ payload" "[]"]
    by (simp add: ccm_star_encrypt_def ctr_crypt_def xor_bytes_def)
  then show ?thesis
    using False by (simp add: decrypt_def encrypt_def)
qed

text \<open>
  The transform fails closed: with the ciphertext of \<open>encrypt\<close>, any MIC but the one
  \<open>encrypt\<close> produced is an \<open>AuthFailure\<close>.
\<close>

lemma tampered_mic_rejected:
  assumes "mic \<noteq> snd (encrypt E level key nonce header_bytes payload)"
  shows "decrypt E level key nonce header_bytes
           (fst (encrypt E level key nonce header_bytes payload)) mic = Inl AuthFailure"
proof -
  let ?M = "unat (ZB_SEC_MIC_LENGTH level)"
  let ?S0 = "ctr_block E (block_of key) nonce 0"
  have M: "?M \<le> 16"
    by (rule mic_length_le_16)
  have rej: "ccm_star_decrypt E (block_of key) ?M nonce a
               (fst (ccm_star_encrypt E (block_of key) ?M nonce a m)) mic = Inl AuthFailure"
    if ne: "mic \<noteq> snd (ccm_star_encrypt E (block_of key) ?M nonce a m)" for a m
  proof (cases "length mic = ?M")
    case False
    then show ?thesis
      by (simp add: ccm_star_decrypt_def)
  next
    case True
    let ?T = "ccm_star_auth E (block_of key) ?M nonce a m"
    have lenT: "length ?T = ?M"
      using M by (rule length_ccm_star_auth)
    have "xor_bytes mic ?S0 \<noteq> ?T"
    proof
      assume eq: "xor_bytes mic ?S0 = ?T"
      have "xor_bytes (xor_bytes mic ?S0) ?S0 = mic"
        using True M by (simp add: xor_bytes_cancel length_ctr_block)
      then have "mic = xor_bytes ?T ?S0"
        by (simp add: eq)
      then show False
        using ne by (simp add: ccm_star_encrypt_def)
    qed
    then show ?thesis
      using True
      by (simp add: ccm_star_decrypt_def ccm_star_encrypt_def ctr_crypt_involution)
  qed
  show ?thesis
  proof (cases "ZB_SEC_ENCRYPTED level")
    case True
    then show ?thesis
      using assms rej [of header_bytes payload] by (simp add: decrypt_def encrypt_def)
  next
    case False
    have "fst (ccm_star_encrypt E (block_of key) ?M nonce (header_bytes @ payload) []) = []"
      by (simp add: ccm_star_encrypt_def ctr_crypt_def xor_bytes_def)
    then show ?thesis
      using False assms rej [of "header_bytes @ payload" "[]"]
      by (simp add: decrypt_def encrypt_def)
  qed
qed

end
